theory Spec2Isabelle
  imports Complex_Main
begin

section \<open>Python lists, ranges and errors\<close>

text \<open>
  The kernels of \<^verbatim>\<open>minitorch/tensor_ops.py\<close> work on flat buffers and on index lists
  through Python subscripts. A subscript outside \<open>-n \<le> i < n\<close> raises; a negative one
  counts from the end. Both are written out here, so that every raise of the source is a
  branch of the model.
\<close>

datatype error = IndexError | ShapeMismatch

definition py_index :: "nat \<Rightarrow> int \<Rightarrow> nat option" where
  "py_index n i =
     (if 0 \<le> i \<and> i < int n then Some (nat i)
      else if - int n \<le> i \<and> i < 0 then Some (nat (i + int n))
      else None)"

definition py_get :: "'x list \<Rightarrow> int \<Rightarrow> 'x option" where
  "py_get xs i = map_option (\<lambda>k. xs ! k) (py_index (length xs) i)"

definition py_set :: "'x list \<Rightarrow> int \<Rightarrow> 'x \<Rightarrow> 'x list option" where
  "py_set xs i v = map_option (\<lambda>k. xs[k := v]) (py_index (length xs) i)"

definition py_range :: "int \<Rightarrow> int \<Rightarrow> int list" where
  \<comment> \<open>\<^verbatim>\<open>range(lo, hi)\<close>; empty when \<open>hi \<le> lo\<close>.\<close>
  "py_range lo hi = [lo..hi - 1]"

section \<open>The helpers imported from tensor_data\<close>

definition index_to_position :: "int list \<Rightarrow> int list \<Rightarrow> int" where
  \<comment> \<open>Modelled from the spec: \<^verbatim>\<open>tensor_data.index_to_position\<close> is imported by
      tensor_ops.py and is not part of the sources. Spec 4.1: the sum of
      \<open>coordinate[d] * strides[d]\<close>, with no bounds checking.\<close>
  "index_to_position idx strd = sum_list (map2 (*) idx strd)"

definition broadcast_index :: "int list \<Rightarrow> int list \<Rightarrow> int list \<Rightarrow> int list \<Rightarrow> int list" where
  \<comment> \<open>Modelled from the spec: \<^verbatim>\<open>tensor_data.broadcast_index\<close> is imported by
      tensor_ops.py and is not part of the sources. Spec 4.2: the small shape is
      right-aligned under the big one; an aligned dimension of size 1 gives entry 0, any
      other aligned dimension gives the big coordinate's entry, and a leading dimension of
      the big shape with no aligned partner gives no entry. The callers pass a scratch list
      of \<open>len(big_shape)\<close> zeros as the fourth argument and afterwards drop every entry
      equal to \<open>-1\<close>, so "no entry" is the marker \<open>-1\<close> they strip; the result is the
      scratch list after the call, every entry of which has been overwritten.\<close>
  "broadcast_index big_index big_shape small_shape out_index =
     (let off = length big_shape - length small_shape
      in replicate off (- 1) @
         map2 (\<lambda>s i. if s = 1 then 0 else i) small_shape (drop off big_index))"

fun broadcast_aligned :: "int list \<Rightarrow> int list \<Rightarrow> error + int list" where
  "broadcast_aligned [] ys = Inr ys"
| "broadcast_aligned xs [] = Inr xs"
| "broadcast_aligned (x # xs) (y # ys) =
     (if x \<noteq> y \<and> x \<noteq> 1 \<and> y \<noteq> 1 then Inl ShapeMismatch
      else case broadcast_aligned xs ys of
             Inl e \<Rightarrow> Inl e
           | Inr zs \<Rightarrow> Inr ((if x = 1 then y else x) # zs))"

definition shape_broadcast :: "int list \<Rightarrow> int list \<Rightarrow> error + int list" where
  \<comment> \<open>Modelled from the spec: \<^verbatim>\<open>tensor_data.shape_broadcast\<close> is imported by
      tensor_ops.py and is not part of the sources. Spec 4.2: right-align the two shapes
      (here: reverse them, so that \<open>broadcast_aligned\<close> walks from the last dimension);
      an aligned pair gives the shared value when equal, the other value when one side is
      1, and ShapeMismatch otherwise; unaligned leading dimensions pass through.\<close>
  "shape_broadcast sa sb =
     (case broadcast_aligned (rev sa) (rev sb) of
        Inl e \<Rightarrow> Inl e
      | Inr zs \<Rightarrow> Inr (rev zs))"

section \<open>The tensor object handed to the entry points\<close>

record 'a tensor =
  storage :: "'a list"
  shape :: "int list"
  strides :: "int list"

fun strides_from_shape :: "int list \<Rightarrow> int list" where
  "strides_from_shape [] = []"
| "strides_from_shape (n # ns) = prod_list ns # strides_from_shape ns"

definition zeros :: "int list \<Rightarrow> ('a::zero) tensor" where
  \<comment> \<open>Modelled from the spec: the tensor class with its \<^verbatim>\<open>zeros\<close>, \<^verbatim>\<open>shape\<close> and
      \<^verbatim>\<open>tuple()\<close> members is not part of the sources. Spec 4.3, 6 and 8: a fresh
      zero-filled buffer of the requested shape with the default contiguous (row-major)
      strides, \<open>(3, 1)\<close> for shape \<open>(2, 3)\<close>.\<close>
  "zeros sh =
     \<lparr>storage = replicate (nat (prod_list sh)) 0, shape = sh, strides = strides_from_shape sh\<rparr>"

section \<open>What a kernel call receives\<close>

text \<open>
  A kernel receives Python objects: the buffers, and the shape and stride sequences. They
  are held in one record per kernel, so that a statement of the source that wrote to any
  of them would show as an update of that field. The field \<open>trace\<close> is not a Python
  object: it logs, in program order, every successful subscript read of a storage, every
  assignment to a cell of \<open>out\<close> and every call of \<open>fn\<close>.

  Two arguments of a call can be one and the same object: the map entry point accepts a
  caller's \<open>out\<close>, which may be the input tensor itself or a view on its storage. The
  field \<open>in_is_out\<close> of a map call says so: when it holds, the input storage is the object
  \<open>out\<close>, every read of the input is a read of \<open>out\<close> as it stands at that moment, and the
  field \<open>in_storage\<close> is not consulted. The zip and reduce entry points always allocate
  their output, and their records hold storages that are objects of their own.
\<close>

datatype buffer = OutBuf | InBuf | ABuf | BBuf

datatype event = Load buffer nat | Store nat | Call

record 'a out_view =
  out :: "'a list"
  out_shape :: "int list"
  out_strides :: "int list"
  trace :: "event list"

record 'a map_args = "'a out_view" +
  in_storage :: "'a list"
  in_shape :: "int list"
  in_strides :: "int list"
  in_is_out :: bool

record 'a reduce_args = "'a out_view" +
  a_storage :: "'a list"
  a_shape :: "int list"
  a_strides :: "int list"

record 'a zip_args = "'a reduce_args" +
  b_storage :: "'a list"
  b_shape :: "int list"
  b_strides :: "int list"

definition fetch :: "buffer \<Rightarrow> 'a list \<Rightarrow> int \<Rightarrow> ('a, 'z) out_view_scheme
    \<Rightarrow> 'a option \<times> ('a, 'z) out_view_scheme" where
  \<comment> \<open>\<^verbatim>\<open>xs[p]\<close> on the storage \<open>xs\<close>; \<open>None\<close> is the IndexError.\<close>
  "fetch b xs p m =
     (case py_index (length xs) p of
        None \<Rightarrow> (None, m)
      | Some k \<Rightarrow> (Some (xs ! k), m\<lparr>trace := trace m @ [Load b k]\<rparr>))"

definition put :: "int \<Rightarrow> 'a \<Rightarrow> ('a, 'z) out_view_scheme
    \<Rightarrow> error option \<times> ('a, 'z) out_view_scheme" where
  \<comment> \<open>\<^verbatim>\<open>out[p] = v\<close>.\<close>
  "put p v m =
     (case py_index (length (out m)) p of
        None \<Rightarrow> (Some IndexError, m)
      | Some k \<Rightarrow> (None, m\<lparr>out := (out m)[k := v], trace := trace m @ [Store k]\<rparr>))"

definition called :: "('a, 'z) out_view_scheme \<Rightarrow> ('a, 'z) out_view_scheme" where
  \<comment> \<open>One call of \<open>fn\<close>.\<close>
  "called m = m\<lparr>trace := trace m @ [Call]\<rparr>"

section \<open>tensor_map\<close>

definition map_cell :: "('a \<Rightarrow> 'a) \<Rightarrow> nat \<Rightarrow> int list \<Rightarrow> 'a map_args
    \<Rightarrow> error option \<times> 'a map_args" where
  \<comment> \<open>Lines 62 to 70: the body of the loop between the assignment to
      \<open>cur_out_index[shape_index]\<close> and the recursive call. The read
      \<^verbatim>\<open>in_storage[in_storage_position]\<close> is a read of \<open>out\<close> when the two are one
      object.\<close>
  "map_cell fn len cur_out_index m =
     (let cur_in_index = filter (\<lambda>i. i \<noteq> - 1)
            (broadcast_index cur_out_index (out_shape m) (in_shape m) (replicate len 0));
          in_storage_position = index_to_position cur_in_index (in_strides m);
          out_storage_position = index_to_position cur_out_index (out_strides m)
      in case (if in_is_out m then fetch OutBuf (out m) in_storage_position m
               else fetch InBuf (in_storage m) in_storage_position m) of
           (None, m1) \<Rightarrow> (Some IndexError, m1)
         | (Some x, m1) \<Rightarrow> put out_storage_position (fn x) (called m1))"

function map_recursive_set :: "nat \<Rightarrow> ('a \<Rightarrow> 'a) \<Rightarrow> int list \<Rightarrow> nat \<Rightarrow> 'a map_args
    \<Rightarrow> error option \<times> 'a map_args"
  and map_for :: "nat \<Rightarrow> ('a \<Rightarrow> 'a) \<Rightarrow> int list \<Rightarrow> nat \<Rightarrow> int list \<Rightarrow> 'a map_args
    \<Rightarrow> error option \<times> 'a map_args" where
  "map_recursive_set len fn cur_out_index shape_index m =
     (if shape_index \<ge> len then (None, m)
      else case py_get (out_shape m) (int shape_index) of
             None \<Rightarrow> (Some IndexError, m)
           | Some n \<Rightarrow> map_for len fn cur_out_index shape_index (py_range 0 n) m)"
| "map_for len fn cur_out_index shape_index [] m = (None, m)"
| "map_for len fn cur_out_index shape_index (i # rest) m =
     (case py_set cur_out_index (int shape_index) i of
        None \<Rightarrow> (Some IndexError, m)
      | Some cur \<Rightarrow>
          (case map_cell fn len cur m of
             (Some e, m1) \<Rightarrow> (Some e, m1)
           | (None, m1) \<Rightarrow>
               (case map_recursive_set len fn cur (shape_index + 1) m1 of
                  (Some e, m2) \<Rightarrow> (Some e, m2)
                | (None, m2) \<Rightarrow> map_for len fn cur shape_index rest m2)))"
  by pat_completeness auto
termination
  by (relation "measures
        [\<lambda>x. case x of Inl (len, fn, cur, d, m) \<Rightarrow> len + 1 - d
                      | Inr (len, fn, cur, d, rest, m) \<Rightarrow> len - d,
         \<lambda>x. case x of Inl (len, fn, cur, d, m) \<Rightarrow> 0
                      | Inr (len, fn, cur, d, rest, m) \<Rightarrow> length rest + 1]")
    auto

definition tensor_map :: "('a \<Rightarrow> 'a) \<Rightarrow> 'a map_args \<Rightarrow> error option \<times> 'a map_args" where
  \<comment> \<open>\<^verbatim>\<open>tensor_map(fn)\<close> is the closure \<^verbatim>\<open>_map\<close>; \<open>length\<close> is read once, before the
      traversal starts.\<close>
  "tensor_map fn m =
     (let len = length (out_shape m)
      in map_recursive_set len fn (replicate len 0) 0 m)"

datatype 'a out_arg = Apart "'a tensor" | Sharing "int list" "int list"

definition map_ret :: "('a \<Rightarrow> 'a) \<Rightarrow> ('a::zero) tensor \<Rightarrow> 'a out_arg option \<Rightarrow> error + 'a tensor" where
  \<comment> \<open>\<^verbatim>\<open>map(fn)\<close> is the closure \<^verbatim>\<open>ret\<close>. The tensor returned is the object \<open>out\<close>,
      whose members are the objects the kernel was handed. A supplied \<open>out\<close> is either a
      tensor with a storage of its own (\<open>Apart\<close>) or a tensor on the storage object of
      \<open>a\<close>, with its shape and strides (\<open>Sharing\<close>); \<^verbatim>\<open>map(fn)(a, out=a)\<close> is
      \<open>Sharing (shape a) (strides a)\<close>.\<close>
  "map_ret fn a out_opt =
     (let out_t = (case out_opt of
                     None \<Rightarrow> zeros (shape a)
                   | Some (Apart t) \<Rightarrow> t
                   | Some (Sharing sh st) \<Rightarrow> \<lparr>storage = storage a, shape = sh, strides = st\<rparr>);
          same = (case out_opt of Some (Sharing sh st) \<Rightarrow> True | _ \<Rightarrow> False)
      in case tensor_map fn
                \<lparr>out = storage out_t, out_shape = shape out_t, out_strides = strides out_t,
                 trace = [],
                 in_storage = storage a, in_shape = shape a, in_strides = strides a,
                 in_is_out = same\<rparr> of
           (Some e, m) \<Rightarrow> Inl e
         | (None, m) \<Rightarrow> Inr \<lparr>storage = out m, shape = out_shape m, strides = out_strides m\<rparr>)"

section \<open>tensor_zip\<close>

definition zip_cell :: "('a \<Rightarrow> 'a \<Rightarrow> 'a) \<Rightarrow> nat \<Rightarrow> int list \<Rightarrow> 'a zip_args
    \<Rightarrow> error option \<times> 'a zip_args" where
  \<comment> \<open>Lines 184 to 198.\<close>
  "zip_cell fn len cur_out_index m =
     (let cur_a_index = filter (\<lambda>i. i \<noteq> - 1)
            (broadcast_index cur_out_index (out_shape m) (a_shape m) (replicate len 0));
          cur_b_index = filter (\<lambda>i. i \<noteq> - 1)
            (broadcast_index cur_out_index (out_shape m) (b_shape m) (replicate len 0));
          a_storage_position = index_to_position cur_a_index (a_strides m);
          b_storage_position = index_to_position cur_b_index (b_strides m);
          out_storage_position = index_to_position cur_out_index (out_strides m)
      in case fetch ABuf (a_storage m) a_storage_position m of
           (None, m1) \<Rightarrow> (Some IndexError, m1)
         | (Some x, m1) \<Rightarrow>
             (case fetch BBuf (b_storage m1) b_storage_position m1 of
                (None, m2) \<Rightarrow> (Some IndexError, m2)
              | (Some y, m2) \<Rightarrow> put out_storage_position (fn x y) (called m2)))"

function zip_recursive_set :: "nat \<Rightarrow> ('a \<Rightarrow> 'a \<Rightarrow> 'a) \<Rightarrow> int list \<Rightarrow> nat \<Rightarrow> 'a zip_args
    \<Rightarrow> error option \<times> 'a zip_args"
  and zip_for :: "nat \<Rightarrow> ('a \<Rightarrow> 'a \<Rightarrow> 'a) \<Rightarrow> int list \<Rightarrow> nat \<Rightarrow> int list \<Rightarrow> 'a zip_args
    \<Rightarrow> error option \<times> 'a zip_args" where
  "zip_recursive_set len fn cur_out_index shape_index m =
     (if shape_index \<ge> len then (None, m)
      else case py_get (out_shape m) (int shape_index) of
             None \<Rightarrow> (Some IndexError, m)
           | Some n \<Rightarrow> zip_for len fn cur_out_index shape_index (py_range 0 n) m)"
| "zip_for len fn cur_out_index shape_index [] m = (None, m)"
| "zip_for len fn cur_out_index shape_index (i # rest) m =
     (case py_set cur_out_index (int shape_index) i of
        None \<Rightarrow> (Some IndexError, m)
      | Some cur \<Rightarrow>
          (case zip_cell fn len cur m of
             (Some e, m1) \<Rightarrow> (Some e, m1)
           | (None, m1) \<Rightarrow>
               (case zip_recursive_set len fn cur (shape_index + 1) m1 of
                  (Some e, m2) \<Rightarrow> (Some e, m2)
                | (None, m2) \<Rightarrow> zip_for len fn cur shape_index rest m2)))"
  by pat_completeness auto
termination
  by (relation "measures
        [\<lambda>x. case x of Inl (len, fn, cur, d, m) \<Rightarrow> len + 1 - d
                      | Inr (len, fn, cur, d, rest, m) \<Rightarrow> len - d,
         \<lambda>x. case x of Inl (len, fn, cur, d, m) \<Rightarrow> 0
                      | Inr (len, fn, cur, d, rest, m) \<Rightarrow> length rest + 1]")
    auto

definition tensor_zip :: "('a \<Rightarrow> 'a \<Rightarrow> 'a) \<Rightarrow> 'a zip_args \<Rightarrow> error option \<times> 'a zip_args" where
  \<comment> \<open>\<^verbatim>\<open>tensor_zip(fn)\<close> is the closure \<^verbatim>\<open>_zip\<close>.\<close>
  "tensor_zip fn m =
     (let len = length (out_shape m)
      in zip_recursive_set len fn (replicate len 0) 0 m)"

definition zip_c_shape :: "(int list \<Rightarrow> int list \<Rightarrow> error + int list) \<Rightarrow> 'a tensor \<Rightarrow> 'a tensor
    \<Rightarrow> error + int list" where
  \<comment> \<open>Lines 239 to 242. The first argument is the broadcast resolver the module imports
      under the name \<^verbatim>\<open>shape_broadcast\<close>.\<close>
  "zip_c_shape resolver a b =
     (if shape a \<noteq> shape b then resolver (shape a) (shape b) else Inr (shape a))"

definition zip_ret :: "(int list \<Rightarrow> int list \<Rightarrow> error + int list) \<Rightarrow> ('a \<Rightarrow> 'a \<Rightarrow> 'a)
    \<Rightarrow> ('a::zero) tensor \<Rightarrow> 'a tensor \<Rightarrow> error + 'a tensor" where
  \<comment> \<open>\<^verbatim>\<open>zip(fn)\<close> is the closure \<^verbatim>\<open>ret\<close>.\<close>
  "zip_ret resolver fn a b =
     (case zip_c_shape resolver a b of
        Inl e \<Rightarrow> Inl e
      | Inr c_shape \<Rightarrow>
          (let out_t = zeros c_shape
           in case tensor_zip fn
                     \<lparr>out = storage out_t, out_shape = shape out_t, out_strides = strides out_t,
                      trace = [],
                      a_storage = storage a, a_shape = shape a, a_strides = strides a,
                      b_storage = storage b, b_shape = shape b, b_strides = strides b\<rparr> of
                (Some e, m) \<Rightarrow> Inl e
              | (None, m) \<Rightarrow>
                  Inr \<lparr>storage = out m, shape = out_shape m, strides = out_strides m\<rparr>))"

section \<open>tensor_reduce\<close>

definition reduce_cell :: "('a \<Rightarrow> 'a \<Rightarrow> 'a) \<Rightarrow> int \<Rightarrow> int list \<Rightarrow> 'a reduce_args
    \<Rightarrow> error option \<times> 'a reduce_args" where
  \<comment> \<open>Lines 295 to 307. In \<^verbatim>\<open>out[p] = fn(out[p], a_storage[q])\<close> the two reads come
      first, left to right, then the call, then the assignment.\<close>
  "reduce_cell fn reduce_dim cur_a_index m =
     (let a_storage_position = index_to_position cur_a_index (a_strides m)
      in case py_get cur_a_index reduce_dim of
           None \<Rightarrow> (Some IndexError, m)
         | Some r \<Rightarrow>
             if r = 0 then
               (let out_storage_position = index_to_position cur_a_index (out_strides m)
                in case fetch ABuf (a_storage m) a_storage_position m of
                     (None, m1) \<Rightarrow> (Some IndexError, m1)
                   | (Some x, m1) \<Rightarrow> put out_storage_position x m1)
             else
               (case py_set cur_a_index reduce_dim 0 of
                  None \<Rightarrow> (Some IndexError, m)
                | Some cur_out_index \<Rightarrow>
                    (let out_storage_position = index_to_position cur_out_index (out_strides m)
                     in case fetch OutBuf (out m) out_storage_position m of
                          (None, m1) \<Rightarrow> (Some IndexError, m1)
                        | (Some acc, m1) \<Rightarrow>
                            (case fetch ABuf (a_storage m1) a_storage_position m1 of
                               (None, m2) \<Rightarrow> (Some IndexError, m2)
                             | (Some x, m2) \<Rightarrow>
                                 put out_storage_position (fn acc x) (called m2)))))"

function reduce_recursive_set :: "nat \<Rightarrow> ('a \<Rightarrow> 'a \<Rightarrow> 'a) \<Rightarrow> int \<Rightarrow> int list \<Rightarrow> nat
    \<Rightarrow> 'a reduce_args \<Rightarrow> error option \<times> 'a reduce_args"
  and reduce_for :: "nat \<Rightarrow> ('a \<Rightarrow> 'a \<Rightarrow> 'a) \<Rightarrow> int \<Rightarrow> int list \<Rightarrow> nat \<Rightarrow> int list
    \<Rightarrow> 'a reduce_args \<Rightarrow> error option \<times> 'a reduce_args" where
  "reduce_recursive_set len fn reduce_dim cur_a_index shape_index m =
     (if shape_index \<ge> len then (None, m)
      else case py_get (a_shape m) (int shape_index) of
             None \<Rightarrow> (Some IndexError, m)
           | Some n \<Rightarrow>
               (let for_length = (if shape_index = 0 then py_range 0 n else py_range 1 n)
                in reduce_for len fn reduce_dim cur_a_index shape_index for_length m))"
| "reduce_for len fn reduce_dim cur_a_index shape_index [] m = (None, m)"
| "reduce_for len fn reduce_dim cur_a_index shape_index (i # rest) m =
     (case py_set cur_a_index (int shape_index) i of
        None \<Rightarrow> (Some IndexError, m)
      | Some cur \<Rightarrow>
          (case reduce_cell fn reduce_dim cur m of
             (Some e, m1) \<Rightarrow> (Some e, m1)
           | (None, m1) \<Rightarrow>
               (case reduce_recursive_set len fn reduce_dim cur (shape_index + 1) m1 of
                  (Some e, m2) \<Rightarrow> (Some e, m2)
                | (None, m2) \<Rightarrow> reduce_for len fn reduce_dim cur shape_index rest m2)))"
  by pat_completeness auto
termination
  by (relation "measures
        [\<lambda>x. case x of Inl (len, fn, r, cur, d, m) \<Rightarrow> len + 1 - d
                      | Inr (len, fn, r, cur, d, rest, m) \<Rightarrow> len - d,
         \<lambda>x. case x of Inl (len, fn, r, cur, d, m) \<Rightarrow> 0
                      | Inr (len, fn, r, cur, d, rest, m) \<Rightarrow> length rest + 1]")
    auto

definition tensor_reduce :: "('a \<Rightarrow> 'a \<Rightarrow> 'a) \<Rightarrow> 'a reduce_args \<Rightarrow> int
    \<Rightarrow> error option \<times> 'a reduce_args" where
  \<comment> \<open>\<^verbatim>\<open>tensor_reduce(fn)\<close> is the closure \<^verbatim>\<open>_reduce\<close>; its \<open>length\<close> is the rank of
      \<open>a_shape\<close>.\<close>
  "tensor_reduce fn m reduce_dim =
     (let len = length (a_shape m)
      in reduce_recursive_set len fn reduce_dim (replicate len 0) 0 m)"

definition reduce_out :: "'a \<Rightarrow> ('a::zero) tensor \<Rightarrow> int \<Rightarrow> error + 'a tensor" where
  \<comment> \<open>Lines 342 to 347: the tensor \<open>out\<close> as it stands when the kernel is called.\<close>
  "reduce_out start a dimn =
     (case py_set (shape a) dimn 1 of
        None \<Rightarrow> Inl IndexError
      | Some out_shape' \<Rightarrow>
          (let out_t = zeros out_shape'
           in Inr (out_t\<lparr>storage := map (\<lambda>_. start) (storage out_t)\<rparr>)))"

definition reduce_ret :: "('a \<Rightarrow> 'a \<Rightarrow> 'a) \<Rightarrow> 'a \<Rightarrow> ('a::zero) tensor \<Rightarrow> int
    \<Rightarrow> error + 'a tensor" where
  \<comment> \<open>\<^verbatim>\<open>reduce(fn, start)\<close> is the closure \<^verbatim>\<open>ret\<close>; \<open>dimn\<close> is its argument
      \<^verbatim>\<open>dim\<close>.\<close>
  "reduce_ret fn start a dimn =
     (case reduce_out start a dimn of
        Inl e \<Rightarrow> Inl e
      | Inr out_t \<Rightarrow>
          (case tensor_reduce fn
                  \<lparr>out = storage out_t, out_shape = shape out_t, out_strides = strides out_t,
                   trace = [],
                   a_storage = storage a, a_shape = shape a, a_strides = strides a\<rparr> dimn of
             (Some e, m) \<Rightarrow> Inl e
           | (None, m) \<Rightarrow> Inr \<lparr>storage = out m, shape = out_shape m, strides = out_strides m\<rparr>))"

section \<open>Notions used in the statements\<close>

text \<open>
  Everything a kernel is handed except the output storage (and the log).
\<close>

definition map_inputs :: "'a map_args
    \<Rightarrow> int list \<times> int list \<times> 'a list \<times> int list \<times> int list" where
  "map_inputs m = (out_shape m, out_strides m, in_storage m, in_shape m, in_strides m)"

definition zip_inputs :: "'a zip_args
    \<Rightarrow> int list \<times> int list \<times> 'a list \<times> int list \<times> int list \<times> 'a list \<times> int list \<times> int list" where
  "zip_inputs m =
     (out_shape m, out_strides m, a_storage m, a_shape m, a_strides m,
      b_storage m, b_shape m, b_strides m)"

definition reduce_inputs :: "'a reduce_args
    \<Rightarrow> int list \<times> int list \<times> 'a list \<times> int list \<times> int list" where
  "reduce_inputs m = (out_shape m, out_strides m, a_storage m, a_shape m, a_strides m)"

text \<open>
  A zip call and a map call stand in this relation when they have the same output view,
  both operands of the zip call are the input of the map call, and the input of the map
  call is an object of its own.
\<close>

definition zip_map_sim :: "'a zip_args \<Rightarrow> 'a map_args \<Rightarrow> bool" where
  "zip_map_sim z m =
     (out z = out m \<and> out_shape z = out_shape m \<and> out_strides z = out_strides m
      \<and> a_storage z = in_storage m \<and> a_shape z = in_shape m \<and> a_strides z = in_strides m
      \<and> b_storage z = in_storage m \<and> b_shape z = in_shape m \<and> b_strides z = in_strides m
      \<and> in_is_out m = False)"

definition same_outcome :: "error option \<times> 'a zip_args \<Rightarrow> error option \<times> 'a map_args \<Rightarrow> bool" where
  "same_outcome r1 r2 = (fst r1 = fst r2 \<and> zip_map_sim (snd r1) (snd r2))"

text \<open>
  The coordinates ranging over a shape, in row-major order, and the membership test.
\<close>

fun all_indices :: "int list \<Rightarrow> int list list" where
  "all_indices [] = [[]]"
| "all_indices (n # ns) = concat (map (\<lambda>i. map ((#) i) (all_indices ns)) (py_range 0 n))"

definition valid_index :: "int list \<Rightarrow> int list \<Rightarrow> bool" where
  "valid_index sh c = list_all2 (\<lambda>i n. 0 \<le> i \<and> i < n) c sh"

text \<open>
  The storage positions the map kernel computes for an output coordinate \<open>c\<close>: the one
  it assigns to, \<open>indexToPosition(c, outStrides)\<close>, and the one it reads,
  \<open>indexToPosition(broadcastIndex(c, outShape, inShape), inStrides)\<close>.
\<close>

definition map_out_position :: "'a map_args \<Rightarrow> int list \<Rightarrow> int" where
  "map_out_position m c = index_to_position c (out_strides m)"

definition map_in_position :: "'a map_args \<Rightarrow> int list \<Rightarrow> int" where
  "map_in_position m c =
     index_to_position
       (filter (\<lambda>i. i \<noteq> - 1)
          (broadcast_index c (out_shape m) (in_shape m) (replicate (length (out_shape m)) 0)))
       (in_strides m)"

text \<open>
  The precondition of the map kernel (spec 4.3): the small shape is broadcastable to the
  big one when it is no longer and, right-aligned, every dimension of it equals the big
  one's or is 1.
\<close>

definition broadcastable :: "int list \<Rightarrow> int list \<Rightarrow> bool" where
  "broadcastable small big =
     (length small \<le> length big
      \<and> list_all2 (\<lambda>s b. s = b \<or> s = 1) small (drop (length big - length small) big))"

text \<open>
  A well-formed map call: the output storage and the input storage are two objects; the
  output has at least one dimension and every dimension has size at least 1; the input
  shape is broadcastable to the output shape; every coordinate of the output shape
  addresses a cell of the output storage, and distinct coordinates address distinct
  cells; every coordinate of the input shape addresses a cell of the input storage.
\<close>

definition map_layout_ok :: "'a map_args \<Rightarrow> bool" where
  "map_layout_ok m =
     (in_is_out m = False
      \<and> out_shape m \<noteq> [] \<and> list_all (\<lambda>n. 1 \<le> n) (out_shape m)
      \<and> broadcastable (in_shape m) (out_shape m)
      \<and> list_all (\<lambda>c. py_index (length (out m)) (map_out_position m c) \<noteq> None)
           (all_indices (out_shape m))
      \<and> distinct (map (\<lambda>c. py_index (length (out m)) (map_out_position m c))
                    (all_indices (out_shape m)))
      \<and> list_all (\<lambda>c. py_index (length (in_storage m)) (index_to_position c (in_strides m))
                        \<noteq> None)
           (all_indices (in_shape m)))"

text \<open>
  The events a call has logged since it started from \<open>m0\<close>, and the state of a map call
  under way: the cell of coordinate \<open>c\<close> has been assigned and holds \<open>fn\<close> of its
  source; the inputs and the size of the output are those of \<open>m0\<close> and no read of the
  output has been logged.
\<close>

definition new_events :: "('a, 'z) out_view_scheme \<Rightarrow> ('a, 'z) out_view_scheme \<Rightarrow> event list" where
  "new_events m0 m = drop (length (trace m0)) (trace m)"

definition map_target :: "'a map_args \<Rightarrow> int list \<Rightarrow> nat" where
  "map_target m0 c = the (py_index (length (out m0)) (map_out_position m0 c))"

definition map_source :: "'a map_args \<Rightarrow> int list \<Rightarrow> 'a" where
  "map_source m0 c =
     in_storage m0 ! the (py_index (length (in_storage m0)) (map_in_position m0 c))"

definition map_done :: "('a \<Rightarrow> 'a) \<Rightarrow> 'a map_args \<Rightarrow> 'a map_args \<Rightarrow> int list \<Rightarrow> bool" where
  "map_done fn m0 m c =
     (Store (map_target m0 c) \<in> set (new_events m0 m)
      \<and> out m ! map_target m0 c = fn (map_source m0 c))"

definition is_out_load :: "event \<Rightarrow> bool" where
  "is_out_load e = (case e of Load OutBuf k \<Rightarrow> True | _ \<Rightarrow> False)"

definition map_run :: "'a map_args \<Rightarrow> 'a map_args \<Rightarrow> bool" where
  "map_run m0 m =
     (map_inputs m = map_inputs m0 \<and> in_is_out m = in_is_out m0
      \<and> length (out m) = length (out m0)
      \<and> length (trace m0) \<le> length (trace m)
      \<and> filter is_out_load (new_events m0 m) = [])"

definition map_adv :: "('a \<Rightarrow> 'a) \<Rightarrow> 'a map_args \<Rightarrow> 'a map_args \<Rightarrow> 'a map_args \<Rightarrow> bool" where
  "map_adv fn m0 m m' =
     (map_run m0 m'
      \<and> (\<forall>c. valid_index (out_shape m0) c \<longrightarrow> map_done fn m0 m c \<longrightarrow> map_done fn m0 m' c))"

section \<open>Lifting a property of one loop body to a whole traversal\<close>

text \<open>
  A property of the outcome of a call that holds of an immediate return, of an IndexError
  raised on the spot and of one loop body, and that composes along sequencing, holds of
  the traversal.
\<close>

declare map_recursive_set.simps [simp del]
declare zip_recursive_set.simps [simp del]
declare reduce_recursive_set.simps [simp del]

lemma map_lift:
  assumes ret: "\<And>m. P m (None, m)" and err: "\<And>m. P m (Some IndexError, m)"
    and seq: "\<And>a b r. P a (None, b) \<Longrightarrow> P b r \<Longrightarrow> P a r"
    and cell: "\<And>fn len cur m. P m (map_cell fn len cur m)"
  shows "P m (map_recursive_set len fn cur d m)"
    and "P m (map_for len fn cur d rest m)"
proof (induction len fn cur d m and len fn cur d rest m
    rule: map_recursive_set_map_for.induct)
  case (1 len fn cur d m)
  then show ?case
    by (simp add: map_recursive_set.simps [of len fn cur d m] ret err split: option.split)
next
  case (2 len fn cur d m)
  show ?case by (simp add: ret)
next
  case (3 len fn cur d i rest m)
  show ?case
  proof (cases "py_set cur (int d) i")
    case None
    then show ?thesis by (simp add: err)
  next
    case upd: (Some cur')
    obtain e1 m1 where c: "map_cell fn len cur' m = (e1, m1)" by force
    have r1: "P m (e1, m1)" using cell [of m fn len cur'] c by simp
    show ?thesis
    proof (cases e1)
      case (Some e)
      then show ?thesis using upd c r1 by simp
    next
      case n1: None
      obtain e2 m2 where r: "map_recursive_set len fn cur' (d + 1) m1 = (e2, m2)" by force
      have r2: "P m1 (e2, m2)"
        using "3.IH"(1) [OF upd c [symmetric] n1] r by simp
      show ?thesis
      proof (cases e2)
        case (Some e)
        then show ?thesis using n1 upd c r seq [OF _ r2] r1 by simp
      next
        case n2: None
        have r3: "P m2 (map_for len fn cur' d rest m2)"
          using "3.IH"(2) [OF upd c [symmetric] n1 r [symmetric] n2] .
        have "P m (map_for len fn cur' d rest m2)"
          using seq [OF _ seq [OF _ r3]] r1 r2 n1 n2 by simp
        then show ?thesis using n1 n2 upd c r by simp
      qed
    qed
  qed
qed

lemma zip_lift:
  assumes ret: "\<And>m. P m (None, m)" and err: "\<And>m. P m (Some IndexError, m)"
    and seq: "\<And>a b r. P a (None, b) \<Longrightarrow> P b r \<Longrightarrow> P a r"
    and cell: "\<And>fn len cur m. P m (zip_cell fn len cur m)"
  shows "P m (zip_recursive_set len fn cur d m)"
    and "P m (zip_for len fn cur d rest m)"
proof (induction len fn cur d m and len fn cur d rest m
    rule: zip_recursive_set_zip_for.induct)
  case (1 len fn cur d m)
  then show ?case
    by (simp add: zip_recursive_set.simps [of len fn cur d m] ret err split: option.split)
next
  case (2 len fn cur d m)
  show ?case by (simp add: ret)
next
  case (3 len fn cur d i rest m)
  show ?case
  proof (cases "py_set cur (int d) i")
    case None
    then show ?thesis by (simp add: err)
  next
    case upd: (Some cur')
    obtain e1 m1 where c: "zip_cell fn len cur' m = (e1, m1)" by force
    have r1: "P m (e1, m1)" using cell [of m fn len cur'] c by simp
    show ?thesis
    proof (cases e1)
      case (Some e)
      then show ?thesis using upd c r1 by simp
    next
      case n1: None
      obtain e2 m2 where r: "zip_recursive_set len fn cur' (d + 1) m1 = (e2, m2)" by force
      have r2: "P m1 (e2, m2)"
        using "3.IH"(1) [OF upd c [symmetric] n1] r by simp
      show ?thesis
      proof (cases e2)
        case (Some e)
        then show ?thesis using n1 upd c r seq [OF _ r2] r1 by simp
      next
        case n2: None
        have r3: "P m2 (zip_for len fn cur' d rest m2)"
          using "3.IH"(2) [OF upd c [symmetric] n1 r [symmetric] n2] .
        have "P m (zip_for len fn cur' d rest m2)"
          using seq [OF _ seq [OF _ r3]] r1 r2 n1 n2 by simp
        then show ?thesis using n1 n2 upd c r by simp
      qed
    qed
  qed
qed

lemma reduce_lift:
  assumes ret: "\<And>m. P m (None, m)" and err: "\<And>m. P m (Some IndexError, m)"
    and seq: "\<And>a b r. P a (None, b) \<Longrightarrow> P b r \<Longrightarrow> P a r"
    and cell: "\<And>fn rd cur m. P m (reduce_cell fn rd cur m)"
  shows "P m (reduce_recursive_set len fn rd cur d m)"
    and "P m (reduce_for len fn rd cur d rest m)"
proof (induction len fn rd cur d m and len fn rd cur d rest m
    rule: reduce_recursive_set_reduce_for.induct)
  case (1 len fn rd cur d m)
  then show ?case
    by (simp add: reduce_recursive_set.simps [of len fn rd cur d m] ret err split: option.split)
next
  case (2 len fn rd cur d m)
  show ?case by (simp add: ret)
next
  case (3 len fn rd cur d i rest m)
  show ?case
  proof (cases "py_set cur (int d) i")
    case None
    then show ?thesis by (simp add: err)
  next
    case upd: (Some cur')
    obtain e1 m1 where c: "reduce_cell fn rd cur' m = (e1, m1)" by force
    have r1: "P m (e1, m1)" using cell [of m fn rd cur'] c by simp
    show ?thesis
    proof (cases e1)
      case (Some e)
      then show ?thesis using upd c r1 by simp
    next
      case n1: None
      obtain e2 m2 where r: "reduce_recursive_set len fn rd cur' (d + 1) m1 = (e2, m2)" by force
      have r2: "P m1 (e2, m2)"
        using "3.IH"(1) [OF upd c [symmetric] n1] r by simp
      show ?thesis
      proof (cases e2)
        case (Some e)
        then show ?thesis using n1 upd c r seq [OF _ r2] r1 by simp
      next
        case n2: None
        have r3: "P m2 (reduce_for len fn rd cur' d rest m2)"
          using "3.IH"(2) [OF upd c [symmetric] n1 r [symmetric] n2] .
        have "P m (reduce_for len fn rd cur' d rest m2)"
          using seq [OF _ seq [OF _ r3]] r1 r2 n1 n2 by simp
        then show ?thesis using n1 n2 upd c r by simp
      qed
    qed
  qed
qed

section \<open>What a kernel call changes\<close>

lemma map_cell_inputs: "map_inputs (snd (map_cell fn len cur m)) = map_inputs m"
  by (simp add: map_cell_def map_inputs_def fetch_def put_def called_def Let_def
      split: option.split prod.split)

lemma zip_cell_inputs: "zip_inputs (snd (zip_cell fn len cur m)) = zip_inputs m"
  by (simp add: zip_cell_def zip_inputs_def fetch_def put_def called_def Let_def
      split: option.split prod.split)

lemma reduce_cell_inputs: "reduce_inputs (snd (reduce_cell fn rd cur m)) = reduce_inputs m"
  by (simp add: reduce_cell_def reduce_inputs_def fetch_def put_def called_def Let_def
      split: option.split prod.split)

text \<open>
  C7: for every invocation of the map, zip or reduce kernel (on buffers that are objects
  of their own), only the designated output storage is mutated: every input storage and
  every shape and stride sequence passed in is unchanged after the call. This holds
  whether the call returns or raises.
\<close>

theorem kernels_leave_inputs_unchanged:
  "map_inputs (snd (tensor_map fn m)) = map_inputs m
   \<and> zip_inputs (snd (tensor_zip g z)) = zip_inputs z
   \<and> reduce_inputs (snd (tensor_reduce g r reduce_dim)) = reduce_inputs r"
proof (intro conjI)
  show "map_inputs (snd (tensor_map fn m)) = map_inputs m"
    unfolding tensor_map_def Let_def
    by (rule map_lift(1) [where P = "\<lambda>a r. map_inputs (snd r) = map_inputs a"])
      (simp_all add: map_cell_inputs)
  show "zip_inputs (snd (tensor_zip g z)) = zip_inputs z"
    unfolding tensor_zip_def Let_def
    by (rule zip_lift(1) [where P = "\<lambda>a r. zip_inputs (snd r) = zip_inputs a"])
      (simp_all add: zip_cell_inputs)
  show "reduce_inputs (snd (tensor_reduce g r reduce_dim)) = reduce_inputs r"
    unfolding tensor_reduce_def Let_def
    by (rule reduce_lift(1) [where P = "\<lambda>a r. reduce_inputs (snd r) = reduce_inputs a"])
      (simp_all add: reduce_cell_inputs)
qed

section \<open>Rank zero\<close>

text \<open>
  C9: for every scalar function \<open>fn\<close>, if any of the three kernels is invoked with an
  output shape of length 0, the kernel returns without writing any cell: the call does not
  raise, and the output storage, the inputs and the log are as before, so no cell was
  written and \<open>fn\<close> was not called. The map and zip kernels test
  \<open>shape_index >= len(out_shape)\<close>. The reduce kernel tests
  \<open>shape_index >= len(a_shape)\<close> (line 272), and its contract (lines 254 and 255:
  \<open>out_shape\<close> is \<open>a_shape\<close> with \<open>reduce_dim\<close> turned to size 1) makes the two
  shapes of one rank; the statement carries that contract.
\<close>

theorem rank_zero_kernels_return_untouched:
  "(length (out_shape m) = 0 \<longrightarrow> tensor_map fn m = (None, m))
   \<and> (length (out_shape z) = 0 \<longrightarrow> tensor_zip g z = (None, z))
   \<and> (length (out_shape r) = 0 \<longrightarrow> length (a_shape r) = length (out_shape r)
        \<longrightarrow> tensor_reduce g r reduce_dim = (None, r))"
  by (simp add: tensor_map_def tensor_zip_def tensor_reduce_def map_recursive_set.simps
      zip_recursive_set.simps reduce_recursive_set.simps)

theorem rank_zero_kernels_return_untouched_witness:
  "tensor_map (\<lambda>x. x + 1)
      \<lparr>out = [7 :: real], out_shape = [], out_strides = [], trace = [],
       in_storage = [1], in_shape = [], in_strides = [], in_is_out = False\<rparr>
     = (None, \<lparr>out = [7], out_shape = [], out_strides = [], trace = [],
               in_storage = [1], in_shape = [], in_strides = [], in_is_out = False\<rparr>)
   \<and> tensor_zip (+)
      \<lparr>out = [7 :: real], out_shape = [], out_strides = [], trace = [],
       a_storage = [1], a_shape = [], a_strides = [],
       b_storage = [2], b_shape = [], b_strides = []\<rparr>
     = (None, \<lparr>out = [7], out_shape = [], out_strides = [], trace = [],
               a_storage = [1], a_shape = [], a_strides = [],
               b_storage = [2], b_shape = [], b_strides = []\<rparr>)
   \<and> tensor_reduce (+)
      \<lparr>out = [7 :: real], out_shape = [], out_strides = [], trace = [],
       a_storage = [1], a_shape = [], a_strides = []\<rparr> 0
     = (None, \<lparr>out = [7], out_shape = [], out_strides = [], trace = [],
               a_storage = [1], a_shape = [], a_strides = []\<rparr>)"
  using rank_zero_kernels_return_untouched
    [of "\<lparr>out = [7 :: real], out_shape = [], out_strides = [], trace = [],
          in_storage = [1], in_shape = [], in_strides = [], in_is_out = False\<rparr>"
        "\<lambda>x. x + 1"
        "\<lparr>out = [7 :: real], out_shape = [], out_strides = [], trace = [],
          a_storage = [1], a_shape = [], a_strides = [],
          b_storage = [2], b_shape = [], b_strides = []\<rparr>"
        "(+)"
        "\<lparr>out = [7 :: real], out_shape = [], out_strides = [], trace = [],
          a_storage = [1], a_shape = [], a_strides = []\<rparr>"
        0]
  by simp

section \<open>The zip entry point and the broadcast resolver\<close>

lemma zip_cell_error: "fst (zip_cell fn len cur m) \<noteq> Some ShapeMismatch"
  by (simp add: zip_cell_def fetch_def put_def called_def Let_def
      split: option.split prod.split)

lemma tensor_zip_error: "fst (tensor_zip fn m) \<noteq> Some ShapeMismatch"
  unfolding tensor_zip_def Let_def
  by (rule zip_lift(1) [where P = "\<lambda>a r. fst r \<noteq> Some ShapeMismatch"])
    (simp_all add: zip_cell_error)

lemma zip_cell_out_view:
  "out_shape (snd (zip_cell fn len cur m)) = out_shape m
   \<and> out_strides (snd (zip_cell fn len cur m)) = out_strides m
   \<and> length (out (snd (zip_cell fn len cur m))) = length (out m)"
  by (simp add: zip_cell_def fetch_def put_def called_def Let_def
      split: option.split prod.split)

lemma tensor_zip_out_view:
  "out_shape (snd (tensor_zip fn m)) = out_shape m
   \<and> out_strides (snd (tensor_zip fn m)) = out_strides m
   \<and> length (out (snd (tensor_zip fn m))) = length (out m)"
  unfolding tensor_zip_def Let_def
  by (rule zip_lift(1)
      [where P = "\<lambda>a r. out_shape (snd r) = out_shape a \<and> out_strides (snd r) = out_strides a
                        \<and> length (out (snd r)) = length (out a)"])
    (simp_all add: zip_cell_out_view)

text \<open>
  C10: for tensors \<open>a\<close> and \<open>b\<close> of equal shape the zip entry point takes \<open>a.shape\<close> as
  the output shape without consulting the broadcast resolver. Its result is the same
  whatever the resolver is; it is the outcome of the kernel on a zero-filled output of
  shape \<open>a.shape\<close> with contiguous strides; it is never a ShapeMismatch; and a tensor it
  returns has the shape of \<open>a\<close>, the contiguous strides of that shape and a storage of
  the size of that shape. The resolver is called only in the branch
  \<open>a.shape != b.shape\<close>.
\<close>

theorem zip_equal_shapes_skip_resolver:
  assumes "shape a = shape b"
  shows "zip_c_shape resolver a b = Inr (shape a)
     \<and> zip_ret resolver fn a b = zip_ret resolver' fn a b
     \<and> zip_ret resolver fn a b \<noteq> Inl ShapeMismatch
     \<and> zip_ret resolver fn a b =
         (case tensor_zip fn
                 \<lparr>out = replicate (nat (prod_list (shape a))) 0,
                  out_shape = shape a,
                  out_strides = strides_from_shape (shape a),
                  trace = [],
                  a_storage = storage a, a_shape = shape a, a_strides = strides a,
                  b_storage = storage b, b_shape = shape b, b_strides = strides b\<rparr> of
            (Some e, m) \<Rightarrow> Inl e
          | (None, m) \<Rightarrow> Inr \<lparr>storage = out m, shape = out_shape m, strides = out_strides m\<rparr>)
     \<and> (case zip_ret resolver fn a b of
           Inl e \<Rightarrow> e = IndexError
         | Inr t \<Rightarrow> shape t = shape a \<and> strides t = strides_from_shape (shape a)
                    \<and> length (storage t) = nat (prod_list (shape a)))"
proof -
  let ?z = "\<lparr>out = replicate (nat (prod_list (shape a))) (0 :: 'a),
             out_shape = shape a,
             out_strides = strides_from_shape (shape a),
             trace = [],
             a_storage = storage a, a_shape = shape a, a_strides = strides a,
             b_storage = storage b, b_shape = shape b, b_strides = strides b\<rparr>"
  have c: "zip_c_shape r a b = Inr (shape a)" for r
    using assms by (simp add: zip_c_shape_def)
  have run: "zip_ret r fn a b =
      (case tensor_zip fn ?z of
         (Some e, m) \<Rightarrow> Inl e
       | (None, m) \<Rightarrow> Inr \<lparr>storage = out m, shape = out_shape m, strides = out_strides m\<rparr>)"
    for r
    by (simp add: zip_ret_def c zeros_def Let_def)
  obtain e m where k: "tensor_zip fn ?z = (e, m)" by force
  have e: "e \<noteq> Some ShapeMismatch" using tensor_zip_error [of fn ?z] k by simp
  have v: "out_shape m = shape a" "out_strides m = strides_from_shape (shape a)"
    "length (out m) = nat (prod_list (shape a))"
    using tensor_zip_out_view [of fn ?z] k by simp_all
  have 3: "zip_ret resolver fn a b \<noteq> Inl ShapeMismatch"
    using e by (cases e) (simp_all add: run k)
  have 5: "(case zip_ret resolver fn a b of
           Inl e \<Rightarrow> e = IndexError
         | Inr t \<Rightarrow> shape t = shape a \<and> strides t = strides_from_shape (shape a)
                    \<and> length (storage t) = nat (prod_list (shape a)))"
  proof (cases e)
    case None
    then show ?thesis by (simp add: run k v)
  next
    case (Some err)
    then have "err = IndexError" using e by (cases err) simp_all
    then show ?thesis using Some by (simp add: run k)
  qed
  show ?thesis using c run [of resolver] run [of resolver'] 3 5 by simp
qed

text \<open>
  The witness runs the entry point with a resolver that always fails.
\<close>

theorem zip_equal_shapes_skip_resolver_witness:
  "zip_c_shape (\<lambda>sa sb. Inl ShapeMismatch)
       \<lparr>storage = [1, 2 :: real], shape = [2], strides = [1]\<rparr>
       \<lparr>storage = [10, 20], shape = [2], strides = [1]\<rparr> = Inr [2]
   \<and> zip_ret (\<lambda>sa sb. Inl ShapeMismatch) (+)
       \<lparr>storage = [1, 2 :: real], shape = [2], strides = [1]\<rparr>
       \<lparr>storage = [10, 20], shape = [2], strides = [1]\<rparr>
     = zip_ret shape_broadcast (+)
       \<lparr>storage = [1, 2 :: real], shape = [2], strides = [1]\<rparr>
       \<lparr>storage = [10, 20], shape = [2], strides = [1]\<rparr>
   \<and> zip_ret (\<lambda>sa sb. Inl ShapeMismatch) (+)
       \<lparr>storage = [1, 2 :: real], shape = [2], strides = [1]\<rparr>
       \<lparr>storage = [10, 20], shape = [2], strides = [1]\<rparr> \<noteq> Inl ShapeMismatch
   \<and> (case zip_ret (\<lambda>sa sb. Inl ShapeMismatch) (+)
              \<lparr>storage = [1, 2 :: real], shape = [2], strides = [1]\<rparr>
              \<lparr>storage = [10, 20], shape = [2], strides = [1]\<rparr> of
         Inl e \<Rightarrow> e = IndexError
       | Inr t \<Rightarrow> shape t = [2] \<and> strides t = [1] \<and> length (storage t) = 2)"
proof -
  let ?a = "\<lparr>storage = [1, 2 :: real], shape = [2], strides = [1]\<rparr>"
  let ?b = "\<lparr>storage = [10, 20 :: real], shape = [2], strides = [1]\<rparr>"
  have h: "shape ?a = shape ?b" by simp
  note T = zip_equal_shapes_skip_resolver
      [OF h, of "\<lambda>sa sb. Inl ShapeMismatch" "(+)" shape_broadcast]
  have 1: "zip_c_shape (\<lambda>sa sb. Inl ShapeMismatch) ?a ?b = Inr [2]"
    using T [THEN conjunct1] by simp
  have 2: "zip_ret (\<lambda>sa sb. Inl ShapeMismatch) (+) ?a ?b = zip_ret shape_broadcast (+) ?a ?b"
    using T [THEN conjunct2, THEN conjunct1] .
  have 3: "zip_ret (\<lambda>sa sb. Inl ShapeMismatch) (+) ?a ?b \<noteq> Inl ShapeMismatch"
    using T [THEN conjunct2, THEN conjunct2, THEN conjunct1] .
  have 4: "(case zip_ret (\<lambda>sa sb. Inl ShapeMismatch) (+) ?a ?b of
         Inl e \<Rightarrow> e = IndexError
       | Inr t \<Rightarrow> shape t = [2] \<and> strides t = [1] \<and> length (storage t) = 2)"
    using T [THEN conjunct2, THEN conjunct2, THEN conjunct2, THEN conjunct2]
    by (simp split: sum.splits)
  show ?thesis using 1 2 3 4 by (intro conjI)
qed

section \<open>The output the reduce entry point hands to the kernel\<close>

text \<open>
  C8: for every tensor \<open>a\<close>, every \<open>dim\<close> within the rank of \<open>a\<close> and every seed, the
  reduce entry point hands the kernel an output whose shape is the shape of \<open>a\<close> with
  dimension \<open>dim\<close> set to 1 (same rank), and every cell of whose storage equals the seed
  when the kernel is invoked.
\<close>

theorem reduce_out_shape_and_fill:
  assumes "0 \<le> dimn" and "dimn < int (length (shape a))"
  shows "reduce_out start a dimn =
           Inr \<lparr>storage = replicate (nat (prod_list ((shape a)[nat dimn := 1]))) start,
                shape = (shape a)[nat dimn := 1],
                strides = strides_from_shape ((shape a)[nat dimn := 1])\<rparr>
     \<and> length ((shape a)[nat dimn := 1]) = length (shape a)
     \<and> (shape a)[nat dimn := 1] ! nat dimn = 1
     \<and> reduce_ret fn start a dimn =
         (case tensor_reduce fn
                 \<lparr>out = replicate (nat (prod_list ((shape a)[nat dimn := 1]))) start,
                  out_shape = (shape a)[nat dimn := 1],
                  out_strides = strides_from_shape ((shape a)[nat dimn := 1]),
                  trace = [],
                  a_storage = storage a, a_shape = shape a, a_strides = strides a\<rparr> dimn of
            (Some e, m) \<Rightarrow> Inl e
          | (None, m) \<Rightarrow> Inr \<lparr>storage = out m, shape = out_shape m, strides = out_strides m\<rparr>)"
proof -
  have s: "py_set (shape a) dimn 1 = Some ((shape a)[nat dimn := 1])"
    using assms by (simp add: py_set_def py_index_def)
  have o: "reduce_out start a dimn =
           Inr \<lparr>storage = replicate (nat (prod_list ((shape a)[nat dimn := 1]))) start,
                shape = (shape a)[nat dimn := 1],
                strides = strides_from_shape ((shape a)[nat dimn := 1])\<rparr>"
    by (simp add: reduce_out_def s zeros_def Let_def map_replicate_const)
  show ?thesis using assms by (simp add: o reduce_ret_def)
qed


theorem reduce_out_shape_and_fill_witness:
  "reduce_out (7 :: real) \<lparr>storage = [1, 2, 3, 4, 5, 6], shape = [2, 3], strides = [3, 1]\<rparr> 1
     = Inr \<lparr>storage = [7, 7], shape = [2, 1], strides = [1, 1]\<rparr>"
  using reduce_out_shape_and_fill
    [of 1 "\<lparr>storage = [1, 2, 3, 4, 5, 6 :: real], shape = [2, 3], strides = [3, 1]\<rparr>" 7]
  by (simp add: numeral_2_eq_2)

section \<open>The concrete scenarios\<close>

text \<open>
  The scenarios use small whole numbers, whose sums are exact in floating point, so the
  storage is taken over \<open>real\<close>.
\<close>

text \<open>
  C5: reducing the tensor of shape (2,3) with row-major storage [1,2,3,4,5,6] over
  dimension 1 with \<open>fn = add\<close> and seed 0.0 yields a tensor of shape (2,1) with storage
  [6,15].
\<close>

theorem reduce_scenario_2x3_dim1:
  "reduce_ret (+) (0::real) \<lparr>storage = [1, 2, 3, 4, 5, 6], shape = [2, 3], strides = [3, 1]\<rparr> 1
     = Inr \<lparr>storage = [6, 15], shape = [2, 1], strides = [1, 1]\<rparr>"
  by code_simp

text \<open>
  C6: zipping \<open>a\<close> of shape (2,1) with storage [1,2] and \<open>b\<close> of shape (1,3) with storage
  [10,20,30] under \<open>fn = add\<close> yields a tensor of shape (2,3) with row-major storage
  [11,21,31,12,22,32].
\<close>

theorem zip_scenario_broadcast:
  "zip_ret shape_broadcast (+)
       \<lparr>storage = [1, 2 :: real], shape = [2, 1], strides = [1, 1]\<rparr>
       \<lparr>storage = [10, 20, 30], shape = [1, 3], strides = [3, 1]\<rparr>
     = Inr \<lparr>storage = [11, 21, 31, 12, 22, 32], shape = [2, 3], strides = [3, 1]\<rparr>"
  by code_simp

section \<open>The reduce kernel and the seed\<close>

text \<open>
  C1 asks for the left fold of \<open>fn\<close> from the seed along the reduced dimension. The
  kernel assigns the input element to the output cell wherever the reduce index is 0
  (line 301), which overwrites the seed the entry point stored there: with \<open>fn = add\<close>
  and seed 1 the vector [1,2] reduces to 3, where the fold from the seed is 4. From rank
  3 on, the loops below the outermost one start at index 1 (line 291), so a cell whose
  coordinate is 0 on an inner axis and positive on a later one is never visited: the
  tensor of shape (1,1,2) with storage [1,2] reduces over its last axis to 1, where the
  fold from seed 0 is 3.
\<close>

theorem reduce_fold_from_seed_fails:
  "reduce_ret (+) (1::real) \<lparr>storage = [1, 2], shape = [2], strides = [1]\<rparr> 0
     = Inr \<lparr>storage = [3], shape = [1], strides = [1]\<rparr>
   \<and> foldl (+) (1::real) [1, 2] = 4
   \<and> reduce_ret (+) (0::real) \<lparr>storage = [1, 2], shape = [1, 1, 2], strides = [2, 2, 1]\<rparr> 2
     = Inr \<lparr>storage = [1], shape = [1, 1, 1], strides = [1, 1, 1]\<rparr>
   \<and> foldl (+) (0::real) [1, 2] = 3"
  by code_simp

text \<open>
  C2 asks that a reduced dimension of size 1 still combines each element once with the
  seed. For the one-element vector the kernel copies the element: whatever \<open>fn\<close> and the
  seed are, the output cell holds \<open>x\<close> and not \<open>fn start x\<close>, and the kernel's log shows one
  read of the input, one assignment and no call of \<open>fn\<close>.
\<close>

theorem reduce_size_one_copies_input:
  "reduce_ret fn start \<lparr>storage = [x], shape = [1], strides = [1]\<rparr> 0
     = Inr \<lparr>storage = [x], shape = [1], strides = [1]\<rparr>
   \<and> tensor_reduce fn
        \<lparr>out = [start], out_shape = [1], out_strides = [1], trace = [],
         a_storage = [x], a_shape = [1], a_strides = [1]\<rparr> 0
     = (None,
        \<lparr>out = [x], out_shape = [1], out_strides = [1], trace = [Load ABuf 0, Store 0],
         a_storage = [x], a_shape = [1], a_strides = [1]\<rparr>)"
  by (simp add: reduce_ret_def reduce_out_def zeros_def tensor_reduce_def py_set_def
      py_get_def py_index_def py_range_def reduce_cell_def index_to_position_def fetch_def
      put_def upto.simps reduce_recursive_set.simps)

section \<open>Zip of a tensor with itself\<close>

lemma zip_map_cell:
  assumes "zip_map_sim z m"
  shows "same_outcome (zip_cell g len cur z) (map_cell (\<lambda>x. g x x) len cur m)"
  using assms
  by (simp add: same_outcome_def zip_map_sim_def zip_cell_def map_cell_def fetch_def put_def
      called_def Let_def split: option.split prod.split)

lemma zip_map_traversal:
  "\<forall>z. fn = (\<lambda>x. g x x) \<longrightarrow> zip_map_sim z m \<longrightarrow>
     same_outcome (zip_recursive_set len g cur d z) (map_recursive_set len fn cur d m)"
  "\<forall>z. fn = (\<lambda>x. g x x) \<longrightarrow> zip_map_sim z m \<longrightarrow>
     same_outcome (zip_for len g cur d rest z) (map_for len fn cur d rest m)"
proof (induction len fn cur d m and len fn cur d rest m rule: map_recursive_set_map_for.induct)
  case (1 len fn cur d m)
  show ?case
  proof (intro allI impI)
    fix z assume f: "fn = (\<lambda>x. g x x)" and s: "zip_map_sim z m"
    have sh: "out_shape z = out_shape m" using s by (simp add: zip_map_sim_def)
    show "same_outcome (zip_recursive_set len g cur d z) (map_recursive_set len fn cur d m)"
    proof (cases "len \<le> d")
      case True
      then show ?thesis
        using s by (simp add: zip_recursive_set.simps [of len g cur d z]
            map_recursive_set.simps [of len fn cur d m] same_outcome_def)
    next
      case False
      show ?thesis
      proof (cases "py_get (out_shape m) (int d)")
        case None
        then show ?thesis
          using s False sh by (simp add: zip_recursive_set.simps [of len g cur d z]
              map_recursive_set.simps [of len fn cur d m] same_outcome_def)
      next
        case (Some n)
        have em: "map_recursive_set len fn cur d m = map_for len fn cur d (py_range 0 n) m"
          using False Some by (simp add: map_recursive_set.simps [of len fn cur d m])
        have ez: "zip_recursive_set len g cur d z = zip_for len g cur d (py_range 0 n) z"
          using False Some sh by (simp add: zip_recursive_set.simps [of len g cur d z])
        show ?thesis
          unfolding em ez using "1.IH" [OF False Some] f s by blast
      qed
    qed
  qed
next
  case (2 len fn cur d m)
  show ?case by (simp add: same_outcome_def)
next
  case (3 len fn cur d i rest m)
  show ?case
  proof (intro allI impI)
    fix z assume f: "fn = (\<lambda>x. g x x)" and s: "zip_map_sim z m"
    show "same_outcome (zip_for len g cur d (i # rest) z) (map_for len fn cur d (i # rest) m)"
    proof (cases "py_set cur (int d) i")
      case None
      then show ?thesis using s by (simp add: same_outcome_def)
    next
      case upd: (Some cur')
      obtain e1 m1 where cm: "map_cell fn len cur' m = (e1, m1)" by force
      obtain e1' z1 where cz: "zip_cell g len cur' z = (e1', z1)" by force
      have c1: "e1' = e1" "zip_map_sim z1 m1"
        using zip_map_cell [OF s, of g len cur'] f cm cz by (simp_all add: same_outcome_def)
      show ?thesis
      proof (cases e1)
        case (Some e)
        then show ?thesis using upd cm cz c1 by (simp add: same_outcome_def)
      next
        case n1: None
        obtain e2 m2 where rm: "map_recursive_set len fn cur' (d + 1) m1 = (e2, m2)" by force
        obtain e2' z2 where rz: "zip_recursive_set len g cur' (d + 1) z1 = (e2', z2)" by force
        have "same_outcome (zip_recursive_set len g cur' (d + 1) z1)
                (map_recursive_set len fn cur' (d + 1) m1)"
          using "3.IH"(1) [OF upd cm [symmetric] n1] f c1(2) by blast
        then have c2: "e2' = e2" "zip_map_sim z2 m2"
          using rm rz by (simp_all add: same_outcome_def)
        show ?thesis
        proof (cases e2)
          case (Some e)
          then show ?thesis using upd cm cz c1 n1 rm rz c2 by (simp add: same_outcome_def)
        next
          case n2: None
          have "same_outcome (zip_for len g cur' d rest z2) (map_for len fn cur' d rest m2)"
            using "3.IH"(2) [OF upd cm [symmetric] n1 rm [symmetric] n2] f c2(2) by blast
          then show ?thesis using upd cm cz c1 n1 rm rz c2 n2 by simp
        qed
      qed
    qed
  qed
qed

text \<open>
  C4: for every binary scalar function \<open>fn\<close> and every tensor \<open>a\<close>, zipping \<open>a\<close> with
  itself equals mapping the diagonal of \<open>fn\<close> over \<open>a\<close>: the two entry points return
  the same tensor (same shape, same strides, same value in every cell) or raise the same
  error. The shapes of the two operands are equal, so the resolver is never consulted and
  the statement holds for any resolver.
\<close>

theorem zip_with_itself_is_diagonal_map:
  "zip_ret resolver g a a = map_ret (\<lambda>x. g x x) a None"
proof -
  let ?z = "\<lparr>out = storage (zeros (shape a) :: 'a tensor),
             out_shape = shape (zeros (shape a) :: 'a tensor),
             out_strides = strides (zeros (shape a) :: 'a tensor), trace = [],
             a_storage = storage a, a_shape = shape a, a_strides = strides a,
             b_storage = storage a, b_shape = shape a, b_strides = strides a\<rparr>"
  let ?m = "\<lparr>out = storage (zeros (shape a) :: 'a tensor),
             out_shape = shape (zeros (shape a) :: 'a tensor),
             out_strides = strides (zeros (shape a) :: 'a tensor), trace = [],
             in_storage = storage a, in_shape = shape a, in_strides = strides a,
       in_is_out = False\<rparr>"
  have s: "zip_map_sim ?z ?m" by (simp add: zip_map_sim_def)
  have "out_shape ?z = out_shape ?m" by simp
  then have "same_outcome (tensor_zip g ?z) (tensor_map (\<lambda>x. g x x) ?m)"
    using zip_map_traversal(1) [of "\<lambda>x. g x x" g ?m _ _ 0] s
    unfolding tensor_zip_def tensor_map_def Let_def by simp
  then show ?thesis
    by (auto simp add: zip_ret_def map_ret_def zip_c_shape_def Let_def same_outcome_def
        zip_map_sim_def split: prod.split option.split)
qed

section \<open>The map kernel, cell by cell\<close>

lemma set_py_range: "set (py_range lo hi) = {i. lo \<le> i \<and> i < hi}"
  by (auto simp add: py_range_def)

lemma all_indices_valid: "c \<in> set (all_indices sh) \<longleftrightarrow> valid_index sh c"
proof (induction sh arbitrary: c)
  case Nil
  show ?case by (simp add: valid_index_def)
next
  case (Cons n ns)
  show ?case
  proof (cases c)
    case Nil
    then show ?thesis by (auto simp add: valid_index_def)
  next
    case (Cons i c')
    then show ?thesis
      using Cons.IH [of c'] by (auto simp add: valid_index_def set_py_range)
  qed
qed

lemma valid_index_length: "valid_index sh c \<Longrightarrow> length c = length sh"
  by (simp add: valid_index_def list_all2_lengthD)

lemma valid_index_nth:
  "valid_index sh c \<Longrightarrow> d < length sh \<Longrightarrow> 0 \<le> c ! d \<and> c ! d < sh ! d"
  by (simp add: valid_index_def list_all2_conv_all_nth)

lemma valid_index_update:
  assumes "valid_index sh c" and "d < length sh" and "0 \<le> i" and "i < sh ! d"
  shows "valid_index sh (c[d := i])"
  using assms by (auto simp add: valid_index_def list_all2_conv_all_nth nth_list_update)

lemma valid_index_zeros:
  assumes "list_all (\<lambda>n. 1 \<le> n) sh"
  shows "valid_index sh (replicate (length sh) 0)"
  using assms by (auto simp add: valid_index_def list_all2_conv_all_nth list_all_length)

lemma py_index_bound: "py_index n p = Some k \<Longrightarrow> k < n"
  by (auto simp add: py_index_def split: if_splits)

lemma py_index_nat: "d < n \<Longrightarrow> py_index n (int d) = Some d"
  by (simp add: py_index_def)

lemma map_layout_target:
  assumes "map_layout_ok m0" and "valid_index (out_shape m0) c"
  shows "py_index (length (out m0)) (map_out_position m0 c) = Some (map_target m0 c)"
    and "map_target m0 c < length (out m0)"
proof -
  have "c \<in> set (all_indices (out_shape m0))" using assms(2) by (simp add: all_indices_valid)
  then have "py_index (length (out m0)) (map_out_position m0 c) \<noteq> None"
    using assms(1) by (auto simp add: map_layout_ok_def list_all_iff)
  then show t: "py_index (length (out m0)) (map_out_position m0 c) = Some (map_target m0 c)"
    by (auto simp add: map_target_def)
  show "map_target m0 c < length (out m0)" using t by (rule py_index_bound)
qed

lemma broadcast_projection_valid:
  assumes b: "broadcastable small big" and c: "valid_index big c"
  shows "valid_index small (filter (\<lambda>i. i \<noteq> - 1) (broadcast_index c big small scratch))"
proof -
  let ?off = "length big - length small"
  let ?p = "map2 (\<lambda>s i. if s = 1 then 0 else i) small (drop ?off c)"
  have lc: "length c = length big" using c by (rule valid_index_length)
  have ls: "length small \<le> length big" using b by (simp add: broadcastable_def)
  have lp: "length ?p = length small" using lc ls by simp
  have entry: "0 \<le> ?p ! k \<and> ?p ! k < small ! k" if k: "k < length small" for k
  proof -
    have kb: "?off + k < length big" using k ls by simp
    have pk: "?p ! k = (if small ! k = 1 then 0 else c ! (?off + k))"
      using k lc ls by simp
    have cb: "0 \<le> c ! (?off + k) \<and> c ! (?off + k) < big ! (?off + k)"
      using valid_index_nth [OF c kb] .
    have la: "list_all2 (\<lambda>s b. s = b \<or> s = 1) small (drop ?off big)"
      using b by (simp add: broadcastable_def)
    have dk: "drop ?off big ! k = big ! (?off + k)" by (rule nth_drop) simp
    have sb: "small ! k = big ! (?off + k) \<or> small ! k = 1"
      using list_all2_nthD [OF la k] unfolding dk .
    show ?thesis using pk cb sb by auto
  qed
  have valid: "valid_index small ?p"
    unfolding valid_index_def list_all2_conv_all_nth using lp entry by simp
  have "x \<noteq> - 1" if xin: "x \<in> set ?p" for x
  proof -
    obtain k where "k < length ?p" and "?p ! k = x"
      using xin unfolding in_set_conv_nth by blast
    then show ?thesis using entry [of k] lp by auto
  qed
  then have "\<forall>x\<in>set ?p. x \<noteq> - 1" by blast
  then have "filter (\<lambda>i. i \<noteq> - 1) ?p = ?p" by (rule filter_True)
  then have "filter (\<lambda>i. i \<noteq> - 1) (broadcast_index c big small scratch) = ?p"
    by (simp add: broadcast_index_def Let_def)
  then show ?thesis using valid by simp
qed

lemma map_layout_source:
  assumes "map_layout_ok m0" and "valid_index (out_shape m0) c"
  shows "py_get (in_storage m0) (map_in_position m0 c) = Some (map_source m0 c)"
proof -
  let ?p = "filter (\<lambda>i. i \<noteq> - 1)
      (broadcast_index c (out_shape m0) (in_shape m0) (replicate (length (out_shape m0)) 0))"
  have "broadcastable (in_shape m0) (out_shape m0)"
    using assms(1) by (simp add: map_layout_ok_def)
  then have "valid_index (in_shape m0) ?p"
    using assms(2) by (rule broadcast_projection_valid)
  then have "?p \<in> set (all_indices (in_shape m0))" by (simp only: all_indices_valid)
  then have "py_index (length (in_storage m0)) (index_to_position ?p (in_strides m0)) \<noteq> None"
    using assms(1) by (auto simp add: map_layout_ok_def list_all_iff)
  then have "py_index (length (in_storage m0)) (map_in_position m0 c) \<noteq> None"
    unfolding map_in_position_def .
  then show ?thesis by (auto simp add: py_get_def map_source_def)
qed

lemma map_layout_inj:
  assumes "map_layout_ok m0" and "valid_index (out_shape m0) c"
    and "valid_index (out_shape m0) c'" and "map_target m0 c = map_target m0 c'"
  shows "c = c'"
proof -
  let ?f = "\<lambda>c. py_index (length (out m0)) (map_out_position m0 c)"
  have "inj_on ?f (set (all_indices (out_shape m0)))"
    using assms(1) by (simp add: map_layout_ok_def distinct_map)
  moreover have "?f c = ?f c'"
    using map_layout_target(1) [OF assms(1,2)] map_layout_target(1) [OF assms(1,3)] assms(4)
    by simp
  ultimately show ?thesis
    using assms(2,3) by (auto simp add: all_indices_valid dest: inj_onD)
qed

lemma map_cell_step:
  assumes lay: "map_layout_ok m0" and run: "map_run m0 m"
    and c: "valid_index (out_shape m0) c"
  shows "\<exists>m'. map_cell fn len c m = (None, m')
           \<and> map_inputs m' = map_inputs m \<and> in_is_out m' = in_is_out m
           \<and> out m' = (out m)[map_target m0 c := fn (map_source m0 c)]
           \<and> (\<exists>j. trace m' = trace m @ [Load InBuf j, Call, Store (map_target m0 c)])"
proof -
  have inp: "out_shape m = out_shape m0" "out_strides m = out_strides m0"
    "in_storage m = in_storage m0" "in_shape m = in_shape m0" "in_strides m = in_strides m0"
    and len: "length (out m) = length (out m0)"
    using run by (simp_all add: map_run_def map_inputs_def)
  have apart: "in_is_out m = False"
    using run lay by (simp add: map_run_def map_layout_ok_def)
  have ip: "index_to_position
       (filter (\<lambda>i. i \<noteq> - 1)
          (broadcast_index c (out_shape m0) (in_shape m0) (replicate len 0)))
       (in_strides m0) = map_in_position m0 c"
    by (simp add: map_in_position_def broadcast_index_def)
  have op: "index_to_position c (out_strides m0) = map_out_position m0 c"
    by (simp add: map_out_position_def)
  obtain j where j: "py_index (length (in_storage m0)) (map_in_position m0 c) = Some j"
    and v: "in_storage m0 ! j = map_source m0 c"
    using map_layout_source [OF lay c] by (auto simp add: py_get_def)
  have t: "py_index (length (out m0)) (map_out_position m0 c) = Some (map_target m0 c)"
    using map_layout_target(1) [OF lay c] .
  show ?thesis
    by (simp add: map_cell_def Let_def ip op fetch_def put_def called_def inp len j v t
        map_inputs_def apart)
qed

lemma map_adv_refl: "map_run m0 m \<Longrightarrow> map_adv fn m0 m m"
  by (simp add: map_adv_def)

lemma map_adv_trans: "map_adv fn m0 a b \<Longrightarrow> map_adv fn m0 b c \<Longrightarrow> map_adv fn m0 a c"
  by (simp add: map_adv_def)

lemma map_cell_adv:
  assumes lay: "map_layout_ok m0" and run: "map_run m0 m"
    and c: "valid_index (out_shape m0) c"
  shows "\<exists>m'. map_cell fn len c m = (None, m') \<and> map_adv fn m0 m m' \<and> map_done fn m0 m' c"
proof -
  let ?k = "map_target m0 c"
  obtain m' j where cell: "map_cell fn len c m = (None, m')"
    and inp: "map_inputs m' = map_inputs m" "in_is_out m' = in_is_out m"
    and out': "out m' = (out m)[?k := fn (map_source m0 c)]"
    and tr: "trace m' = trace m @ [Load InBuf j, Call, Store ?k]"
    using map_cell_step [OF lay run c, of fn len] by blast
  have len: "length (out m) = length (out m0)" and le: "length (trace m0) \<le> length (trace m)"
    using run by (simp_all add: map_run_def)
  have k: "?k < length (out m)" using map_layout_target(2) [OF lay c] len by simp
  have ev: "new_events m0 m' = new_events m0 m @ [Load InBuf j, Call, Store ?k]"
    using le by (simp add: new_events_def tr)
  have run': "map_run m0 m'"
    using run by (simp add: map_run_def inp out' tr ev is_out_load_def)
  have done': "map_done fn m0 m' c"
    using k by (simp add: map_done_def ev out')
  have keep: "map_done fn m0 m' c'"
    if v: "valid_index (out_shape m0) c'" and d: "map_done fn m0 m c'" for c'
  proof (cases "map_target m0 c' = ?k")
    case True
    then have "c' = c" using map_layout_inj [OF lay v c] by simp
    then show ?thesis using done' by simp
  next
    case False
    then show ?thesis using d by (simp add: map_done_def ev out')
  qed
  show ?thesis using cell run' done' keep by (auto simp add: map_adv_def)
qed

lemma py_set_nat: "d < length xs \<Longrightarrow> py_set xs (int d) v = Some (xs[d := v])"
  by (simp add: py_set_def py_index_nat)

lemma py_get_nat: "d < length xs \<Longrightarrow> py_get xs (int d) = Some (xs ! d)"
  by (simp add: py_get_def py_index_nat)

lemma map_traversal:
  "map_layout_ok m0 \<Longrightarrow> len = length (out_shape m0) \<Longrightarrow> map_run m0 m
     \<Longrightarrow> valid_index (out_shape m0) cur
     \<Longrightarrow> \<exists>m'. map_recursive_set len fn cur d m = (None, m') \<and> map_adv fn m0 m m'
           \<and> ((d < len \<or> map_done fn m0 m cur) \<longrightarrow>
               (\<forall>c. valid_index (out_shape m0) c \<longrightarrow> take d c = take d cur
                    \<longrightarrow> map_done fn m0 m' c))"
  "map_layout_ok m0 \<Longrightarrow> len = length (out_shape m0) \<Longrightarrow> map_run m0 m
     \<Longrightarrow> valid_index (out_shape m0) cur \<Longrightarrow> d < len
     \<Longrightarrow> (\<forall>i\<in>set rest. 0 \<le> i \<and> i < out_shape m0 ! d)
     \<Longrightarrow> \<exists>m'. map_for len fn cur d rest m = (None, m') \<and> map_adv fn m0 m m'
           \<and> (\<forall>c. valid_index (out_shape m0) c \<longrightarrow> take d c = take d cur
                    \<longrightarrow> c ! d \<in> set rest \<longrightarrow> map_done fn m0 m' c)"
proof (induction len fn cur d m and len fn cur d rest m rule: map_recursive_set_map_for.induct)
  case (1 len fn cur d m)
  note lay = "1.prems"(1) and len = "1.prems"(2) and run = "1.prems"(3) and cur = "1.prems"(4)
  have lc: "length cur = len" using valid_index_length [OF cur] len by simp
  show ?case
  proof (cases "len \<le> d")
    case True
    have "map_done fn m0 m c"
      if "map_done fn m0 m cur" "valid_index (out_shape m0) c" "take d c = take d cur" for c
      using that True lc valid_index_length [of "out_shape m0" c] len by simp
    then show ?thesis
      using True run by (auto simp add: map_recursive_set.simps [of len fn cur d m] map_adv_refl)
  next
    case False
    then have d: "d < len" by simp
    have sh: "out_shape m = out_shape m0" using run by (simp add: map_run_def map_inputs_def)
    have g: "py_get (out_shape m) (int d) = Some (out_shape m0 ! d)"
      using d len by (simp add: sh py_get_nat)
    have r: "\<forall>i\<in>set (py_range 0 (out_shape m0 ! d)). 0 \<le> i \<and> i < out_shape m0 ! d"
      by (simp add: set_py_range)
    obtain m' where f: "map_for len fn cur d (py_range 0 (out_shape m0 ! d)) m = (None, m')"
      and a: "map_adv fn m0 m m'"
      and cov: "\<And>c. valid_index (out_shape m0) c \<Longrightarrow> take d c = take d cur
                 \<Longrightarrow> c ! d \<in> set (py_range 0 (out_shape m0 ! d)) \<Longrightarrow> map_done fn m0 m' c"
      using "1.IH" [OF False g lay len run cur d r] by blast
    have "map_done fn m0 m' c"
      if "valid_index (out_shape m0) c" "take d c = take d cur" for c
      using cov [OF that] valid_index_nth [OF that(1), of d] d len by (simp add: set_py_range)
    then show ?thesis
      using False g f a by (auto simp add: map_recursive_set.simps [of len fn cur d m])
  qed
next
  case (2 len fn cur d m)
  then show ?case by (simp add: map_adv_refl)
next
  case (3 len fn cur d i rest m)
  note lay = "3.prems"(1) and len = "3.prems"(2) and run = "3.prems"(3) and cur = "3.prems"(4)
    and d = "3.prems"(5) and rng = "3.prems"(6)
  let ?cur = "cur[d := i]"
  have lc: "length cur = len" using valid_index_length [OF cur] len by simp
  have upd: "py_set cur (int d) i = Some ?cur" using d lc by (simp add: py_set_nat)
  have cur': "valid_index (out_shape m0) ?cur"
    using valid_index_update [OF cur, of d i] d len rng by simp
  obtain m1 where c1: "map_cell fn len ?cur m = (None, m1)" and a1: "map_adv fn m0 m m1"
    and d1: "map_done fn m0 m1 ?cur"
    using map_cell_adv [OF lay run cur', of fn len] by blast
  have run1: "map_run m0 m1" using a1 by (simp add: map_adv_def)
  obtain m2 where c2: "map_recursive_set len fn ?cur (d + 1) m1 = (None, m2)"
    and a2: "map_adv fn m0 m1 m2"
    and cov2: "\<And>c. valid_index (out_shape m0) c \<Longrightarrow> take (d + 1) c = take (d + 1) ?cur
                 \<Longrightarrow> map_done fn m0 m2 c"
    using "3.IH"(1) [OF upd c1 [symmetric] refl lay len run1 cur'] d1 by blast
  have run2: "map_run m0 m2" using a2 by (simp add: map_adv_def)
  have rng': "\<forall>i\<in>set rest. 0 \<le> i \<and> i < out_shape m0 ! d" using rng by simp
  obtain m3 where c3: "map_for len fn ?cur d rest m2 = (None, m3)"
    and a3: "map_adv fn m0 m2 m3"
    and cov3: "\<And>c. valid_index (out_shape m0) c \<Longrightarrow> take d c = take d ?cur
                 \<Longrightarrow> c ! d \<in> set rest \<Longrightarrow> map_done fn m0 m3 c"
    using "3.IH"(2) [OF upd c1 [symmetric] refl c2 [symmetric] refl lay len run2 cur' d rng']
    by blast
  have res: "map_for len fn cur d (i # rest) m = (None, m3)"
    using c2 by (simp add: upd c1 c3)
  have adv: "map_adv fn m0 m m3"
    using map_adv_trans [OF a1 map_adv_trans [OF a2 a3]] .
  have cov: "map_done fn m0 m3 c"
    if v: "valid_index (out_shape m0) c" and t: "take d c = take d cur"
      and e: "c ! d \<in> set (i # rest)" for c
  proof (cases "c ! d = i")
    case True
    have lcc: "length c = len" using valid_index_length [OF v] len by simp
    have "take (d + 1) c = take d c @ [c ! d]"
      using d lcc by (simp add: take_Suc_conv_app_nth)
    moreover have "take (d + 1) ?cur = take d cur @ [i]"
      using d lc by (simp add: take_Suc_conv_app_nth)
    ultimately have "take (d + 1) c = take (d + 1) ?cur" using t True by simp
    then have "map_done fn m0 m2 c" using cov2 [OF v] by simp
    then show ?thesis using a3 v by (simp add: map_adv_def)
  next
    case False
    then have "c ! d \<in> set rest" using e by simp
    moreover have "take d c = take d ?cur" using t by simp
    ultimately show ?thesis using cov3 [OF v] by simp
  qed
  show ?case using res adv cov by blast
qed

text \<open>
  Why the statement on the map kernel asks for a layout: with output stride 0 the two
  coordinates of shape (2) share one cell, which ends as \<open>fn\<close> of the second input
  element, and with an output storage shorter than the shape the kernel raises IndexError
  after its first assignment. In both calls the input shape is the output shape.
\<close>

lemma tensor_map_layout_needed:
  "broadcastable [2] [2]
   \<and> tensor_map (\<lambda>x. x * 2)
      \<lparr>out = [0 :: real], out_shape = [2], out_strides = [0], trace = [],
       in_storage = [1, 2], in_shape = [2], in_strides = [1], in_is_out = False\<rparr>
     = (None,
        \<lparr>out = [4], out_shape = [2], out_strides = [0],
         trace = [Load InBuf 0, Call, Store 0, Load InBuf 1, Call, Store 0],
         in_storage = [1, 2], in_shape = [2], in_strides = [1], in_is_out = False\<rparr>)
   \<and> tensor_map (\<lambda>x. x * 2)
      \<lparr>out = [0 :: real], out_shape = [2], out_strides = [1], trace = [],
       in_storage = [1, 2], in_shape = [2], in_strides = [1], in_is_out = False\<rparr>
     = (Some IndexError,
        \<lparr>out = [2], out_shape = [2], out_strides = [1],
         trace = [Load InBuf 0, Call, Store 0, Load InBuf 1, Call],
         in_storage = [1, 2], in_shape = [2], in_strides = [1], in_is_out = False\<rparr>)"
  by code_simp

text \<open>
  C3 says that, whenever the input shape is broadcastable to the output shape, after the
  map kernel every cell addressed by a coordinate \<open>c\<close> of the output shape holds \<open>fn\<close> of
  the broadcast-projected input cell, that each such cell is written exactly once, and that
  the kernel never reads the output storage. Three calls with equal input and output shapes
  show otherwise.

  The kernel assigns at every recursion level, to the coordinate whose later entries are
  still 0 (line 70 stands before the recursive call of line 72): on shape (2,2), with a
  contiguous output of its own, the cell of coordinate (0,0) is assigned twice, and so is
  the cell of (1,0).

  The entry point accepts the input tensor as \<open>out\<close> (lines 111 to 115), and the claim
  ranges over every output storage: \<^verbatim>\<open>map(fn)(a, out=a)\<close> on shape (2,2) with storage
  1, 2, 3, 4 and \<open>fn = x * 2\<close> reads the output storage at every step, reads cells it has
  already assigned and returns 4, 4, 12, 8, where \<open>fn\<close> of the input cells is 2, 4, 6, 8.

  With an output shape of length 0 the kernel returns at once (lines 57 and 58) and the one
  cell of the empty coordinate is not assigned at all.
\<close>

theorem tensor_map_writes_cell_twice:
  "map_layout_ok
      \<lparr>out = [0, 0, 0, 0 :: real], out_shape = [2, 2], out_strides = [2, 1], trace = [],
       in_storage = [1, 2, 3, 4], in_shape = [2, 2], in_strides = [2, 1],
       in_is_out = False\<rparr>
   \<and> broadcastable [2, 2] [2, 2]
   \<and> map_out_position
      \<lparr>out = [0, 0, 0, 0 :: real], out_shape = [2, 2], out_strides = [2, 1], trace = [],
       in_storage = [1, 2, 3, 4], in_shape = [2, 2], in_strides = [2, 1],
       in_is_out = False\<rparr> [0, 0] = 0
   \<and> tensor_map (\<lambda>x. x * 2)
      \<lparr>out = [0, 0, 0, 0 :: real], out_shape = [2, 2], out_strides = [2, 1], trace = [],
       in_storage = [1, 2, 3, 4], in_shape = [2, 2], in_strides = [2, 1],
       in_is_out = False\<rparr>
     = (None,
        \<lparr>out = [2, 4, 6, 8], out_shape = [2, 2], out_strides = [2, 1],
         trace = [Load InBuf 0, Call, Store 0, Load InBuf 0, Call, Store 0,
                  Load InBuf 1, Call, Store 1, Load InBuf 2, Call, Store 2,
                  Load InBuf 2, Call, Store 2, Load InBuf 3, Call, Store 3],
         in_storage = [1, 2, 3, 4], in_shape = [2, 2], in_strides = [2, 1],
         in_is_out = False\<rparr>)
   \<and> count_list
        [Load InBuf 0, Call, Store 0, Load InBuf 0, Call, Store 0,
         Load InBuf 1, Call, Store 1, Load InBuf 2, Call, Store 2,
         Load InBuf 2, Call, Store 2, Load InBuf 3, Call, Store 3] (Store 0) = 2
   \<and> map_ret (\<lambda>x. x * 2)
        \<lparr>storage = [1, 2, 3, 4 :: real], shape = [2, 2], strides = [2, 1]\<rparr>
        (Some (Sharing [2, 2] [2, 1]))
     = Inr \<lparr>storage = [4, 4, 12, 8], shape = [2, 2], strides = [2, 1]\<rparr>
   \<and> tensor_map (\<lambda>x. x * 2)
      \<lparr>out = [1, 2, 3, 4 :: real], out_shape = [2, 2], out_strides = [2, 1], trace = [],
       in_storage = [1, 2, 3, 4], in_shape = [2, 2], in_strides = [2, 1],
       in_is_out = True\<rparr>
     = (None,
        \<lparr>out = [4, 4, 12, 8], out_shape = [2, 2], out_strides = [2, 1],
         trace = [Load OutBuf 0, Call, Store 0, Load OutBuf 0, Call, Store 0,
                  Load OutBuf 1, Call, Store 1, Load OutBuf 2, Call, Store 2,
                  Load OutBuf 2, Call, Store 2, Load OutBuf 3, Call, Store 3],
         in_storage = [1, 2, 3, 4], in_shape = [2, 2], in_strides = [2, 1],
         in_is_out = True\<rparr>)
   \<and> broadcastable [] []
   \<and> all_indices [] = [[]]
   \<and> tensor_map (\<lambda>x. x * 2)
      \<lparr>out = [0 :: real], out_shape = [], out_strides = [], trace = [],
       in_storage = [1], in_shape = [], in_strides = [],
       in_is_out = False\<rparr>
     = (None,
        \<lparr>out = [0], out_shape = [], out_strides = [], trace = [],
         in_storage = [1], in_shape = [], in_strides = [],
         in_is_out = False\<rparr>)"
  by code_simp

text \<open>
  C3 as amended: for every unary \<open>fn\<close> and every (outStorage, outShape, outStrides,
  inStorage, inShape, inStrides) with inShape broadcastable to outShape, where outStorage
  and inStorage are two objects, outShape has at least one dimension and every dimension
  has size at least 1, every coordinate of outShape addresses a cell of outStorage,
  distinct coordinates address distinct cells, and every coordinate of inShape addresses a
  cell of inStorage: the map kernel returns, and afterwards for every coordinate \<open>c\<close>
  ranging over outShape the cell \<open>outStorage[indexToPosition(c, outStrides)]\<close> equals
  \<open>fn\<close> of \<open>inStorage[indexToPosition(broadcastIndex(c, outShape, inShape), inStrides)]\<close>;
  each such cell is written at least once, and the kernel never reads outStorage.
\<close>

theorem tensor_map_fills_every_cell:
  assumes "map_layout_ok m"
  shows "\<exists>m'. tensor_map fn m = (None, m')
     \<and> (\<forall>c\<in>set (all_indices (out_shape m)).
          (\<exists>x. py_get (in_storage m) (map_in_position m c) = Some x
               \<and> py_get (out m') (map_out_position m c) = Some (fn x))
          \<and> (\<exists>k. py_index (length (out m)) (map_out_position m c) = Some k
               \<and> 1 \<le> count_list (new_events m m') (Store k)))
     \<and> (\<forall>k. Load OutBuf k \<notin> set (new_events m m'))"
proof -
  let ?len = "length (out_shape m)"
  have run: "map_run m m" by (simp add: map_run_def new_events_def)
  have z: "valid_index (out_shape m) (replicate ?len 0)"
    using assms by (simp add: map_layout_ok_def valid_index_zeros)
  have pos: "0 < ?len" using assms by (simp add: map_layout_ok_def)
  obtain m' where res: "map_recursive_set ?len fn (replicate ?len 0) 0 m = (None, m')"
    and adv: "map_adv fn m m m'"
    and cov: "\<And>c. valid_index (out_shape m) c \<Longrightarrow> map_done fn m m' c"
    using map_traversal(1) [OF assms refl run z, of fn 0] pos by auto
  have run': "map_run m m'" using adv by (simp add: map_adv_def)
  have t: "tensor_map fn m = (None, m')" by (simp add: tensor_map_def res)
  have cells: "(\<exists>x. py_get (in_storage m) (map_in_position m c) = Some x
               \<and> py_get (out m') (map_out_position m c) = Some (fn x))
          \<and> (\<exists>k. py_index (length (out m)) (map_out_position m c) = Some k
               \<and> 1 \<le> count_list (new_events m m') (Store k))"
    if "c \<in> set (all_indices (out_shape m))" for c
  proof -
    have v: "valid_index (out_shape m) c" using that by (simp add: all_indices_valid)
    have d: "map_done fn m m' c" using cov [OF v] .
    have k: "py_index (length (out m)) (map_out_position m c) = Some (map_target m c)"
      using map_layout_target(1) [OF assms v] .
    have "py_get (out m') (map_out_position m c) = Some (fn (map_source m c))"
      using d k run' by (simp add: py_get_def map_done_def map_run_def)
    moreover have "count_list (new_events m m') (Store (map_target m c)) \<noteq> 0"
      using d by (simp add: map_done_def count_list_0_iff)
    ultimately show ?thesis
      using map_layout_source [OF assms v] k by auto
  qed
  have ev: "\<not> is_out_load e" if "e \<in> set (new_events m m')" for e
    using run' that by (simp add: map_run_def filter_empty_conv)
  have loads: "Load OutBuf k \<notin> set (new_events m m')" for k
  proof
    assume "Load OutBuf k \<in> set (new_events m m')"
    then have "\<not> is_out_load (Load OutBuf k)" by (rule ev)
    then show False by (simp add: is_out_load_def)
  qed
  show ?thesis using t cells loads by blast
qed

text \<open>
  The witness is the scenario of the spec: shape (2,3), storage 1 to 6, \<open>fn = x * 2\<close>;
  the cell of coordinate (1,2) ends as 12.
\<close>

theorem tensor_map_fills_every_cell_witness:
  "map_layout_ok
      \<lparr>out = [0, 0, 0, 0, 0, 0 :: real], out_shape = [2, 3], out_strides = [3, 1], trace = [],
       in_storage = [1, 2, 3, 4, 5, 6], in_shape = [2, 3], in_strides = [3, 1],
       in_is_out = False\<rparr>
   \<and> (\<exists>m'. tensor_map (\<lambda>x. x * 2)
      \<lparr>out = [0, 0, 0, 0, 0, 0 :: real], out_shape = [2, 3], out_strides = [3, 1], trace = [],
       in_storage = [1, 2, 3, 4, 5, 6], in_shape = [2, 3], in_strides = [3, 1],
       in_is_out = False\<rparr> = (None, m')
        \<and> py_get (out m') 5 = Some 12)"
proof -
  let ?m = "\<lparr>out = [0, 0, 0, 0, 0, 0 :: real], out_shape = [2, 3], out_strides = [3, 1],
             trace = [],
             in_storage = [1, 2, 3, 4, 5, 6], in_shape = [2, 3], in_strides = [3, 1],
       in_is_out = False\<rparr>
            :: real map_args"
  have h: "map_layout_ok ?m" by code_simp
  have "valid_index (out_shape ?m) [1, 2]" by (simp add: valid_index_def)
  then have c: "[1, 2] \<in> set (all_indices (out_shape ?m))" by (simp only: all_indices_valid)
  have p: "map_out_position ?m [1, 2] = 5" by code_simp
  have q: "py_get (in_storage ?m) (map_in_position ?m [1, 2]) = Some 6" by code_simp
  obtain m' where r: "tensor_map (\<lambda>x. x * 2) ?m = (None, m')"
    and b: "\<forall>c\<in>set (all_indices (out_shape ?m)).
          (\<exists>x. py_get (in_storage ?m) (map_in_position ?m c) = Some x
               \<and> py_get (out m') (map_out_position ?m c) = Some (x * 2))
          \<and> (\<exists>k. py_index (length (out ?m)) (map_out_position ?m c) = Some k
               \<and> 1 \<le> count_list (new_events ?m m') (Store k))"
    using tensor_map_fills_every_cell [OF h, of "\<lambda>x. x * 2"]
    by (elim exE conjE) (rule that)
  obtain x where x1: "py_get (in_storage ?m) (map_in_position ?m [1, 2]) = Some x"
    and x2: "py_get (out m') (map_out_position ?m [1, 2]) = Some (x * 2)"
    using bspec [OF b c] by (elim exE conjE) (rule that)
  have "x = 6" using x1 unfolding q by simp
  then have "py_get (out m') 5 = Some 12" using x2 unfolding p by simp
  then show ?thesis using h r by (intro conjI exI [of _ m'])
qed

end
